theory Spec2Isabelle
  imports Complex_Main "HOL-Library.AList" "HOL-Library.Multiset" "HOL-Library.Code_Target_Nat"
begin

section \<open>Data model\<close>

text \<open>
  The TypeScript type \<open>number\<close> is modelled by \<open>real\<close>: arithmetic is exact, and the
  values \<open>NaN\<close> and \<open>Infinity\<close> are left out. Counters that the source only ever increments
  from zero are \<open>nat\<close>; array indices, which \<open>findIndex\<close> may return as \<open>-1\<close>, are \<open>int\<close>.
  An optional field or parameter (\<open>undefined\<close>, \<open>null\<close>) is an \<open>option\<close>.
\<close>

datatype MaskShape = Circle | Rectangle | RoundedRectangle

record LayoutRect =
  rect_x :: real
  rect_y :: real
  rect_width :: real
  rect_height :: real

text \<open>
  The promise returned by a step's \<open>measure\<close> capability either never resolves, resolves
  with \<open>null\<close>, or resolves with a rectangle. The model step carries that outcome.
\<close>

datatype Measurement = NeverResolves | ResolvesNull | Resolves LayoutRect

record Step =
  step_name :: string
  step_order :: real
  step_text :: string
  step_tourKey :: string
  step_visible :: bool
  step_measure :: Measurement
  step_maskShape :: "MaskShape option"
  step_borderRadius :: "real option"
  step_highlightPadding :: "real option"

text \<open>
  What reading a property gives, as far as \<open>start\<close> tells values apart: a falsy value
  (\<open>undefined\<close> among them), a truthy value, or an error thrown by an accessor.
\<close>

datatype JsKind = Falsy | Truthy | Throws

text \<open>
  The options of \<open>TourProvider\<close> and \<open>TourModal\<close> after their defaults have been applied,
  together with the platform values that the code reads: \<open>Platform.OS === 'android'\<close>,
  \<open>StatusBar.currentHeight\<close>, and the properties that every plain object inherits from
  \<open>Object.prototype\<close>. \<open>objectPrototype k\<close> is \<open>None\<close> when a plain object inherits no property
  named \<open>k\<close>. It is \<open>Some props\<close> when it inherits one; the inherited value is then a function
  or an object, hence truthy, and \<open>props p\<close> tells what reading the property \<open>p\<close> of that
  value gives.
\<close>

record Options =
  opt_verticalOffset :: real
  opt_highlightPadding :: real
  opt_margin :: real
  opt_arrowSize :: real
  opt_arrowColor :: string
  opt_borderRadius :: real
  opt_androidStatusBarVisible :: bool
  platform_android :: bool
  statusBar_currentHeight :: "real option"
  objectPrototype :: "string \<Rightarrow> (string \<Rightarrow> JsKind) option"

definition STEP_NUMBER_RADIUS :: real where
  "STEP_NUMBER_RADIUS = 14"

definition STEP_NUMBER_DIAMETER :: real where
  "STEP_NUMBER_DIAMETER = STEP_NUMBER_RADIUS * 2"

definition DEFAULT_MARGIN :: real where
  "DEFAULT_MARGIN = 13"

definition DEFAULT_HIGHLIGHT_PADDING :: real where
  "DEFAULT_HIGHLIGHT_PADDING = 4"

definition DEFAULT_ARROW_SIZE :: real where
  "DEFAULT_ARROW_SIZE = 6"

definition MAX_START_TRIES :: nat where
  "MAX_START_TRIES = 120"

text \<open>
  The inherited properties of a plain object in an engine that implements ECMAScript 2024
  with its Annex B. All of them are functions, except \<open>__proto__\<close>, whose value is
  \<open>Object.prototype\<close> itself. A function has its own \<open>length\<close> (falsy when it is \<open>0\<close>) and
  \<open>name\<close>, inherits from \<open>Function.prototype\<close> and \<open>Object.prototype\<close>, and throws when its
  \<open>caller\<close> or \<open>arguments\<close> is read; \<open>constructor\<close> is \<open>Object\<close>, with its static methods.
\<close>

definition objectPrototypeNames :: "string list" where
  "objectPrototypeNames =
     [''constructor'', ''hasOwnProperty'', ''isPrototypeOf'', ''propertyIsEnumerable'',
      ''toLocaleString'', ''toString'', ''valueOf'', ''__proto__'', ''__defineGetter__'',
      ''__defineSetter__'', ''__lookupGetter__'', ''__lookupSetter__'']"

definition functionPrototypeNames :: "string list" where
  "functionPrototypeNames = [''apply'', ''bind'', ''call'']"

definition objectConstructorNames :: "string list" where
  "objectConstructorNames =
     [''prototype'', ''assign'', ''create'', ''defineProperties'', ''defineProperty'',
      ''entries'', ''freeze'', ''fromEntries'', ''getOwnPropertyDescriptor'',
      ''getOwnPropertyDescriptors'', ''getOwnPropertyNames'', ''getOwnPropertySymbols'',
      ''getPrototypeOf'', ''groupBy'', ''hasOwn'', ''is'', ''isExtensible'', ''isFrozen'',
      ''isSealed'', ''keys'', ''preventExtensions'', ''seal'', ''setPrototypeOf'', ''values'']"

definition ecmascript_objectPrototype :: "string \<Rightarrow> (string \<Rightarrow> JsKind) option" where
  "ecmascript_objectPrototype k =
     (if k \<notin> set objectPrototypeNames then None
      else if k = ''__proto__''
      then Some (\<lambda>p. if p \<in> set objectPrototypeNames \<and> p \<noteq> ''__proto__'' then Truthy
                     else Falsy)
      else Some (\<lambda>p. if p = ''caller'' \<or> p = ''arguments'' then Throws
                     else if p = ''length''
                     then (if k \<in> set [''toLocaleString'', ''toString'', ''valueOf'']
                           then Falsy else Truthy)
                     else if p = ''name'' \<or> p \<in> set functionPrototypeNames
                               \<or> p \<in> set objectPrototypeNames
                     then Truthy
                     else if k = ''constructor'' \<and> p \<in> set objectConstructorNames
                     then Truthy
                     else Falsy))"

definition default_options :: Options where
  "default_options =
     \<lparr>opt_verticalOffset = 0, opt_highlightPadding = DEFAULT_HIGHLIGHT_PADDING,
      opt_margin = DEFAULT_MARGIN, opt_arrowSize = DEFAULT_ARROW_SIZE,
      opt_arrowColor = ''#fff'', opt_borderRadius = 8,
      opt_androidStatusBarVisible = False, platform_android = False,
      statusBar_currentHeight = None, objectPrototype = ecmascript_objectPrototype\<rparr>"

section \<open>The mask path (\<open>SvgMask.generatePath\<close>)\<close>

text \<open>
  The source builds the SVG path as a string. The model keeps the path commands as values,
  in the order in which the string lists them, so that the numbers inside the path can be
  read back.
\<close>

datatype PathCmd =
    MoveTo real real
  | HLineTo real
  | VLineTo real
  | ArcTo real real real bool bool real real
  | ClosePath

fun arcRadii :: "PathCmd list \<Rightarrow> (real \<times> real) list" where
  "arcRadii [] = []"
| "arcRadii (ArcTo rh rv rot large sweep ex ey # cs) = (rh, rv) # arcRadii cs"
| "arcRadii (c # cs) = arcRadii cs"

definition outerPath :: "real \<Rightarrow> real \<Rightarrow> PathCmd list" where
  "outerPath canvasX canvasY =
     [MoveTo 0 0, HLineTo canvasX, VLineTo canvasY, HLineTo 0, VLineTo 0, ClosePath]"

text \<open>
  \<open>posX\<close>, \<open>posY\<close>, \<open>sizeX\<close>, \<open>sizeY\<close> are the current values of the animated position and
  size. The \<open>default\<close> branch of the source's \<open>switch\<close> is the rounded rectangle.
\<close>

definition innerPath ::
  "MaskShape \<Rightarrow> real \<Rightarrow> real \<Rightarrow> real \<Rightarrow> real \<Rightarrow> real \<Rightarrow> PathCmd list" where
  "innerPath maskShape borderRadius posX posY sizeX sizeY =
     (case maskShape of
        Circle \<Rightarrow>
          (let diameter = min sizeX sizeY;
               radius = diameter / 2;
               centerX = posX + sizeX / 2;
               centerY = posY + sizeY / 2
           in [MoveTo (centerX - radius) centerY,
               ArcTo radius radius 0 True False (centerX + radius) centerY,
               ArcTo radius radius 0 True False (centerX - radius) centerY,
               ClosePath])
      | Rectangle \<Rightarrow>
          [MoveTo posX posY, HLineTo (posX + sizeX), VLineTo (posY + sizeY),
           HLineTo posX, VLineTo posY, ClosePath]
      | RoundedRectangle \<Rightarrow>
          (let r = min borderRadius (min (sizeX / 2) (sizeY / 2))
           in [MoveTo (posX + r) posY,
               HLineTo (posX + sizeX - r),
               ArcTo r r 0 False True (posX + sizeX) (posY + r),
               VLineTo (posY + sizeY - r),
               ArcTo r r 0 False True (posX + sizeX - r) (posY + sizeY),
               HLineTo (posX + r),
               ArcTo r r 0 False True posX (posY + sizeY - r),
               VLineTo (posY + r),
               ArcTo r r 0 False True (posX + r) posY,
               ClosePath]))"

definition generatePath ::
  "MaskShape \<Rightarrow> real \<Rightarrow> real \<times> real \<Rightarrow> real \<times> real \<Rightarrow> real \<times> real \<Rightarrow> PathCmd list" where
  "generatePath maskShape borderRadius canvasSize position_xy size_xy =
     outerPath (fst canvasSize) (snd canvasSize)
       @ innerPath maskShape borderRadius
           (fst position_xy) (snd position_xy) (fst size_xy) (snd size_xy)"

section \<open>Tooltip placement (\<open>TourModal._animateMove\<close>)\<close>

datatype VerticalPosition = Top | Bottom

datatype HorizontalPosition = Left | Right

record ViewStyle =
  vs_position :: "string option"
  vs_top :: "real option"
  vs_bottom :: "real option"
  vs_left :: "real option"
  vs_right :: "real option"
  vs_maxWidth :: "real option"
  vs_borderTopColor :: "string option"
  vs_borderBottomColor :: "string option"
  vs_borderLeftColor :: "string option"
  vs_borderRightColor :: "string option"

definition emptyStyle :: ViewStyle where
  "emptyStyle =
     \<lparr>vs_position = None, vs_top = None, vs_bottom = None, vs_left = None, vs_right = None,
      vs_maxWidth = None, vs_borderTopColor = None, vs_borderBottomColor = None,
      vs_borderLeftColor = None, vs_borderRightColor = None\<rparr>"

text \<open>The state of the modal that \<open>_animateMove\<close> reads and writes.\<close>

record Modal =
  layout :: LayoutRect
  tooltipStyles :: ViewStyle
  arrowStyles :: ViewStyle
  maskRect :: "LayoutRect option"
  currentMaskShape :: MaskShape
  currentBorderRadius :: real
  animated_top :: real
  animated_stepNumberLeft :: real

text \<open>
  On Android with a hidden status bar the rectangle is first moved up by the height of the
  status bar (\<open>rect.y -= StatusBar.currentHeight ?? 0\<close>).
\<close>

definition statusBarShift :: "Options \<Rightarrow> LayoutRect \<Rightarrow> LayoutRect" where
  "statusBarShift opts rect =
     (if \<not> opt_androidStatusBarVisible opts \<and> platform_android opts
      then rect\<lparr>rect_y := rect_y rect
              - (case statusBar_currentHeight opts of Some h \<Rightarrow> h | None \<Rightarrow> 0)\<rparr>
      else rect)"

definition stepNumberLeft :: "LayoutRect \<Rightarrow> LayoutRect \<Rightarrow> real" where
  "stepNumberLeft measuredLayout rect =
     (let l = rect_x rect - STEP_NUMBER_RADIUS
      in if l < 0
         then (let l2 = rect_x rect + rect_width rect - STEP_NUMBER_RADIUS
               in if l2 > rect_width measuredLayout - STEP_NUMBER_DIAMETER
                  then rect_width measuredLayout - STEP_NUMBER_DIAMETER
                  else l2)
         else l)"

definition center_x :: "LayoutRect \<Rightarrow> real" where
  "center_x rect = rect_x rect + rect_width rect / 2"

definition center_y :: "LayoutRect \<Rightarrow> real" where
  "center_y rect = rect_y rect + rect_height rect / 2"

definition relativeToBottom :: "LayoutRect \<Rightarrow> LayoutRect \<Rightarrow> real" where
  "relativeToBottom measuredLayout rect = \<bar>center_y rect - rect_height measuredLayout\<bar>"

definition relativeToTop :: "LayoutRect \<Rightarrow> real" where
  "relativeToTop rect = center_y rect"

definition relativeToLeft :: "LayoutRect \<Rightarrow> real" where
  "relativeToLeft rect = center_x rect"

definition relativeToRight :: "LayoutRect \<Rightarrow> LayoutRect \<Rightarrow> real" where
  "relativeToRight measuredLayout rect = \<bar>center_x rect - rect_width measuredLayout\<bar>"

definition verticalPosition :: "LayoutRect \<Rightarrow> LayoutRect \<Rightarrow> VerticalPosition" where
  "verticalPosition measuredLayout rect =
     (if relativeToBottom measuredLayout rect > relativeToTop rect then Bottom else Top)"

definition horizontalPosition :: "LayoutRect \<Rightarrow> LayoutRect \<Rightarrow> HorizontalPosition" where
  "horizontalPosition measuredLayout rect =
     (if relativeToLeft rect > relativeToRight measuredLayout rect then Left else Right)"

text \<open>The vertical half of the tooltip and arrow styles.\<close>

definition placeVertical ::
  "Options \<Rightarrow> LayoutRect \<Rightarrow> LayoutRect \<Rightarrow> ViewStyle \<times> ViewStyle \<Rightarrow> ViewStyle \<times> ViewStyle" where
  "placeVertical opts measuredLayout rect styles =
     (case styles of (tooltip, arrow) \<Rightarrow>
        (case verticalPosition measuredLayout rect of
           Bottom \<Rightarrow>
             (let t = rect_y rect + rect_height rect + opt_margin opts
              in (tooltip\<lparr>vs_top := Some t\<rparr>,
                  arrow\<lparr>vs_borderBottomColor := Some (opt_arrowColor opts),
                        vs_borderTopColor := Some ''transparent'',
                        vs_borderLeftColor := Some ''transparent'',
                        vs_borderRightColor := Some ''transparent'',
                        vs_top := Some (t - opt_arrowSize opts * 2)\<rparr>))
         | Top \<Rightarrow>
             (let b = rect_height measuredLayout - (rect_y rect - opt_margin opts)
              in (tooltip\<lparr>vs_bottom := Some b\<rparr>,
                  arrow\<lparr>vs_borderTopColor := Some (opt_arrowColor opts),
                        vs_borderLeftColor := Some ''transparent'',
                        vs_borderRightColor := Some ''transparent'',
                        vs_borderBottomColor := Some ''transparent'',
                        vs_bottom := Some (b - opt_arrowSize opts * 2)\<rparr>))))"

text \<open>The horizontal half: the anchor offset, the maximal width and the arrow's offset.\<close>

definition placeHorizontal ::
  "Options \<Rightarrow> LayoutRect \<Rightarrow> LayoutRect \<Rightarrow> ViewStyle \<times> ViewStyle \<Rightarrow> ViewStyle \<times> ViewStyle" where
  "placeHorizontal opts measuredLayout rect styles =
     (case styles of (tooltip, arrow) \<Rightarrow>
        (case horizontalPosition measuredLayout rect of
           Left \<Rightarrow>
             (let r0 = max (rect_width measuredLayout - (rect_x rect + rect_width rect)) 0;
                  r = (if r0 = 0 then opt_margin opts else r0)
              in (tooltip\<lparr>vs_right := Some r,
                          vs_maxWidth := Some (rect_width measuredLayout - r - opt_margin opts)\<rparr>,
                  arrow\<lparr>vs_right := Some (r + opt_margin opts)\<rparr>))
         | Right \<Rightarrow>
             (let l0 = max (rect_x rect) 0;
                  l = (if l0 = 0 then opt_margin opts else l0)
              in (tooltip\<lparr>vs_left := Some l,
                          vs_maxWidth := Some (rect_width measuredLayout - l - opt_margin opts)\<rparr>,
                  arrow\<lparr>vs_left := Some (l + opt_margin opts)\<rparr>))))"

definition animateMove_inner ::
  "Options \<Rightarrow> Modal \<Rightarrow> LayoutRect \<Rightarrow> MaskShape option \<Rightarrow> real option \<Rightarrow> Modal" where
  "animateMove_inner opts m rect0 maskShape stepBorderRadius =
     (let measuredLayout = layout m;
          rect = statusBarShift opts rect0;
          styles = placeHorizontal opts measuredLayout rect
                     (placeVertical opts measuredLayout rect
                        (emptyStyle, emptyStyle\<lparr>vs_position := Some ''absolute''\<rparr>))
      in m\<lparr>currentMaskShape := (case maskShape of Some s \<Rightarrow> s | None \<Rightarrow> RoundedRectangle),
           currentBorderRadius :=
             (case stepBorderRadius of Some b \<Rightarrow> b | None \<Rightarrow> opt_borderRadius opts),
           animated_top := rect_y rect,
           animated_stepNumberLeft := stepNumberLeft measuredLayout rect,
           tooltipStyles := fst styles,
           arrowStyles := snd styles,
           maskRect := Some \<lparr>rect_x = of_int \<lfloor>max (rect_x rect) 0\<rfloor>,
                             rect_y = of_int \<lfloor>max (rect_y rect) 0\<rfloor>,
                             rect_width = rect_width rect,
                             rect_height = rect_height rect\<rparr>\<rparr>)"

text \<open>
  \<open>animateMove\<close> waits for one animation frame and then runs \<open>_animateMove\<close>; its promise
  always resolves, so the model applies the inner function directly. The modal is rendered
  by the provider itself, so \<open>modalRef.current\<close> is taken to be set.
\<close>

definition initial_modal :: "Options \<Rightarrow> LayoutRect \<Rightarrow> Modal" where
  "initial_modal opts screen =
     \<lparr>layout = screen, tooltipStyles = emptyStyle, arrowStyles = emptyStyle, maskRect = None,
      currentMaskShape = RoundedRectangle, currentBorderRadius = opt_borderRadius opts,
      animated_top = 0, animated_stepNumberLeft = 0\<rparr>"

section \<open>The step registry (\<open>stepsReducer\<close>)\<close>

text \<open>
  The steps of one tour are a JavaScript object keyed by step name. The model keeps its
  properties as an association list in the order in which \<open>Object.values\<close> lists them:
  keys that are array indices (canonical decimal numerals below \<open>2^32 - 1\<close>) first, in
  ascending numeric order, then all other keys in the order of their creation. The list
  holds the own properties only: the properties that an object inherits from
  \<open>Object.prototype\<close> are not listed by \<open>Object.values\<close> and not copied by a spread. They
  are found when a property is read by name, which \<open>start\<close> does; the reducer's own reads
  of \<open>state[tourKey]\<close> are modelled for own properties.
\<close>

type_synonym TourSteps = "(string \<times> Step) list"

type_synonym StepsState = "string \<Rightarrow> TourSteps option"

datatype StepsAction = Register Step | Unregister string string

definition digitValue :: "char \<Rightarrow> nat option" where
  "digitValue c =
     map_of [(CHR ''0'', 0), (CHR ''1'', 1), (CHR ''2'', 2), (CHR ''3'', 3), (CHR ''4'', 4),
             (CHR ''5'', 5), (CHR ''6'', 6), (CHR ''7'', 7), (CHR ''8'', 8), (CHR ''9'', 9)] c"

fun decimalValue :: "string \<Rightarrow> nat \<Rightarrow> nat option" where
  "decimalValue [] acc = Some acc"
| "decimalValue (c # cs) acc =
     (case digitValue c of None \<Rightarrow> None | Some d \<Rightarrow> decimalValue cs (10 * acc + d))"

definition arrayIndex :: "string \<Rightarrow> nat option" where
  "arrayIndex s =
     (case s of
        [] \<Rightarrow> None
      | c # cs \<Rightarrow>
          if c = CHR ''0'' \<and> cs \<noteq> [] then None
          else (case decimalValue s 0 of
                  None \<Rightarrow> None
                | Some n \<Rightarrow> if n < 4294967295 then Some n else None))"

fun insertIndexKey :: "nat \<Rightarrow> string \<Rightarrow> 'v \<Rightarrow> (string \<times> 'v) list \<Rightarrow> (string \<times> 'v) list" where
  "insertIndexKey n k v [] = [(k, v)]"
| "insertIndexKey n k v (p # ps) =
     (case arrayIndex (fst p) of
        Some n' \<Rightarrow> if n' < n then p # insertIndexKey n k v ps else (k, v) # p # ps
      | None \<Rightarrow> (k, v) # p # ps)"

text \<open>
  \<open>{ ...obj, [k]: v }\<close>: an existing property keeps its place and takes the new value, a new
  one is created.
\<close>

definition setProperty :: "(string \<times> 'v) list \<Rightarrow> string \<Rightarrow> 'v \<Rightarrow> (string \<times> 'v) list" where
  "setProperty ps k v =
     (case map_of ps k of
        Some old \<Rightarrow> AList.update k v ps
      | None \<Rightarrow>
          (case arrayIndex k of
             Some n \<Rightarrow> insertIndexKey n k v ps
           | None \<Rightarrow> ps @ [(k, v)]))"

text \<open>\<open>state[tourKey] || {}\<close>: the steps of a tour, none when the tour is unknown.\<close>

definition tourStepsOf :: "StepsState \<Rightarrow> string \<Rightarrow> TourSteps" where
  "tourStepsOf state tourKey = (case state tourKey of Some ts \<Rightarrow> ts | None \<Rightarrow> [])"

fun stepsReducer :: "StepsState \<Rightarrow> StepsAction \<Rightarrow> StepsState" where
  "stepsReducer state (Register step) =
     (let tourKey = step_tourKey step;
          name = step_name step;
          tourSteps = tourStepsOf state tourKey
      in state(tourKey \<mapsto> setProperty tourSteps name step))"
| "stepsReducer state (Unregister stepName tourKey) =
     (case state tourKey of
        None \<Rightarrow> state
      | Some tourSteps \<Rightarrow> state(tourKey \<mapsto> AList.delete stepName tourSteps))"

text \<open>
  \<open>Object.values(tourSteps).filter((s) => s.visible).sort((a, b) => a.order - b.order)\<close>,
  as \<open>start\<close> computes it for the tour key it is given. \<open>Array.prototype.sort\<close> is stable, as
  is \<open>sort_key\<close>.
\<close>

definition orderedTourSteps :: "StepsState \<Rightarrow> string \<Rightarrow> Step list" where
  "orderedTourSteps stepsState tourKey =
     (let tourSteps = tourStepsOf stepsState tourKey
      in sort_key step_order (filter step_visible (map snd tourSteps)))"

text \<open>
  The memoised \<open>orderedSteps\<close> of the provider, for the active tour. The guard
  \<open>if (!activeTour) return []\<close> holds for \<open>null\<close> and for the empty string.
\<close>

definition orderedSteps :: "StepsState \<Rightarrow> string option \<Rightarrow> Step list" where
  "orderedSteps stepsState activeTourKey =
     (case activeTourKey of
        None \<Rightarrow> []
      | Some k \<Rightarrow> if k = [] then [] else orderedTourSteps stepsState k)"

section \<open>The event emitter (\<open>TourEventEmitter\<close>)\<close>

text \<open>
  A callback is identified by a number (the identity of the function object); the set of
  callbacks of an event is a list without duplicates in insertion order, which is the
  order of \<open>Set.forEach\<close>. What a callback does when it is called is given by \<open>run\<close>:
  \<open>None\<close> when it returns, \<open>Some err\<close> when it throws \<open>err\<close>. Callbacks that subscribe or
  unsubscribe while an event is being delivered are not modelled.
\<close>

datatype TourEventType = EvStart | EvStop | EvStepChange

type_synonym Listeners = "TourEventType \<Rightarrow> nat list option"

datatype 'd Trace = Called nat 'd | ConsoleError TourEventType string

definition emitter_on :: "Listeners \<Rightarrow> TourEventType \<Rightarrow> nat \<Rightarrow> Listeners" where
  "emitter_on ls event callback =
     (let callbacks = (case ls event of None \<Rightarrow> [] | Some cs \<Rightarrow> cs)
      in ls(event \<mapsto> (if callback \<in> set callbacks then callbacks else callbacks @ [callback])))"

definition emitter_off :: "Listeners \<Rightarrow> TourEventType \<Rightarrow> nat \<Rightarrow> Listeners" where
  "emitter_off ls event callback =
     (case ls event of
        None \<Rightarrow> ls
      | Some callbacks \<Rightarrow> ls(event \<mapsto> removeAll callback callbacks))"

definition removeAllListeners :: "Listeners \<Rightarrow> TourEventType option \<Rightarrow> Listeners" where
  "removeAllListeners ls event =
     (case event of Some e \<Rightarrow> ls(e := None) | None \<Rightarrow> Map.empty)"

text \<open>The body of \<open>forEach\<close>: call the callback inside \<open>try\<close>, log what it throws, go on.\<close>

fun forEach_callback ::
  "(nat \<Rightarrow> 'd \<Rightarrow> string option) \<Rightarrow> TourEventType \<Rightarrow> 'd \<Rightarrow> nat list \<Rightarrow> 'd Trace list" where
  "forEach_callback run event data [] = []"
| "forEach_callback run event data (callback # callbacks) =
     (case run callback data of
        None \<Rightarrow> [Called callback data]
      | Some err \<Rightarrow> [Called callback data, ConsoleError event err])
     @ forEach_callback run event data callbacks"

definition emit ::
  "(nat \<Rightarrow> 'd \<Rightarrow> string option) \<Rightarrow> Listeners \<Rightarrow> TourEventType \<Rightarrow> 'd \<Rightarrow> 'd Trace list" where
  "emit run ls event data =
     (case ls event of
        None \<Rightarrow> []
      | Some callbacks \<Rightarrow> forEach_callback run event data callbacks)"

fun calledWith :: "'d Trace list \<Rightarrow> (nat \<times> 'd) list" where
  "calledWith [] = []"
| "calledWith (Called c d # ts) = (c, d) # calledWith ts"
| "calledWith (ConsoleError e err # ts) = calledWith ts"

fun loggedErrors :: "'d Trace list \<Rightarrow> string list" where
  "loggedErrors [] = []"
| "loggedErrors (Called c d # ts) = loggedErrors ts"
| "loggedErrors (ConsoleError e err # ts) = err # loggedErrors ts"

section \<open>The tour engine (\<open>TourProvider\<close>)\<close>

text \<open>
  The events handed to \<open>events.emit\<close>. The \<open>stepChange\<close> event takes its tour key from
  \<open>activeTour!\<close>, which the source does not check, so it is an \<open>option\<close> here.
\<close>

datatype TourEvent =
    StartEvent string
  | StopEvent string bool
  | StepChangeEvent "string option" Step int

datatype Warning = FailedToStart string

text \<open>
  The state of the provider: its React state and refs, the modal, and the effects it has
  had so far (events emitted, warnings logged, animation frames requested by \<open>start\<close>, and
  the arguments of every \<open>animateMove\<close> call). A scroll view is identified by a number.
\<close>

record Engine =
  steps :: StepsState
  activeTour :: "string option"
  currentStep :: "Step option"
  visible :: bool
  startTries :: nat
  scrollViewRef :: "nat option"
  modal :: Modal
  emitted :: "TourEvent list"
  warnings :: "Warning list"
  animationFrames :: nat
  moves :: "(LayoutRect \<times> MaskShape option \<times> real option) list"

definition initial_engine :: "Options \<Rightarrow> LayoutRect \<Rightarrow> Engine" where
  "initial_engine opts screen =
     \<lparr>steps = Map.empty, activeTour = None, currentStep = None, visible = False,
      startTries = 0, scrollViewRef = None, modal = initial_modal opts screen,
      emitted = [], warnings = [], animationFrames = 0, moves = []\<rparr>"

text \<open>
  An asynchronous operation runs to its end, or stays suspended for ever at one of its
  \<open>await\<close>s, or throws, so that its promise is rejected; in each case it leaves a state
  behind.
\<close>

datatype Outcome = Settled Engine | Stalled Engine | Threw Engine

fun state_of :: "Outcome \<Rightarrow> Engine" where
  "state_of (Settled st) = st"
| "state_of (Stalled st) = st"
| "state_of (Threw st) = st"

fun andThen :: "Outcome \<Rightarrow> (Engine \<Rightarrow> Outcome) \<Rightarrow> Outcome" where
  "andThen (Settled st) f = f st"
| "andThen (Stalled st) f = Stalled st"
| "andThen (Threw st) f = Threw st"

text \<open>\<open>xs[i]\<close> for a JavaScript array: \<open>undefined\<close> outside the array.\<close>

definition at_index :: "'a list \<Rightarrow> int \<Rightarrow> 'a option" where
  "at_index xs i = (if 0 \<le> i \<and> i < int (length xs) then Some (xs ! nat i) else None)"

fun findIndex :: "('a \<Rightarrow> bool) \<Rightarrow> 'a list \<Rightarrow> int" where
  "findIndex p [] = - 1"
| "findIndex p (x # xs) =
     (if p x then 0 else (let i = findIndex p xs in if i < 0 then - 1 else i + 1))"

definition stepIndex :: "Engine \<Rightarrow> int" where
  "stepIndex st =
     (case currentStep st of
        Some cs \<Rightarrow>
          findIndex (\<lambda>s. step_order s = step_order cs) (orderedSteps (steps st) (activeTour st))
      | None \<Rightarrow> - 1)"

definition currentStepNumber :: "Engine \<Rightarrow> int" where
  "currentStepNumber st = stepIndex st + 1"

definition totalStepsNumber :: "Engine \<Rightarrow> int" where
  "totalStepsNumber st = int (length (orderedSteps (steps st) (activeTour st)))"

definition isFirstStep :: "Engine \<Rightarrow> bool" where
  "isFirstStep st = (stepIndex st = 0)"

definition isLastStep :: "Engine \<Rightarrow> bool" where
  "isLastStep st = (stepIndex st = int (length (orderedSteps (steps st) (activeTour st))) - 1)"

definition registerStep :: "Engine \<Rightarrow> Step \<Rightarrow> Engine" where
  "registerStep st step = st\<lparr>steps := stepsReducer (steps st) (Register step)\<rparr>"

definition unregisterStep :: "Engine \<Rightarrow> string \<Rightarrow> string \<Rightarrow> Engine" where
  "unregisterStep st stepName tourKey =
     st\<lparr>steps := stepsReducer (steps st) (Unregister stepName tourKey)\<rparr>"

text \<open>
  \<open>useStateWithAwait\<close>: the promise of the setter is resolved by an effect that runs when
  the state value has changed. Setting the value the state already has changes nothing, so
  that promise stays pending.
\<close>

definition setVisibility :: "bool \<Rightarrow> Engine \<Rightarrow> Outcome" where
  "setVisibility newState st =
     (if visible st = newState then Stalled st else Settled (st\<lparr>visible := newState\<rparr>))"

definition animateMove ::
  "Options \<Rightarrow> Engine \<Rightarrow> LayoutRect \<Rightarrow> MaskShape option \<Rightarrow> real option \<Rightarrow> Engine" where
  "animateMove opts st rect maskShape stepBorderRadius =
     st\<lparr>modal := animateMove_inner opts (modal st) rect maskShape stepBorderRadius,
        moves := moves st @ [(rect, maskShape, stepBorderRadius)]\<rparr>"

text \<open>\<open>step.highlightPadding ?? highlightPadding\<close>\<close>

definition stepPadding :: "Options \<Rightarrow> Step \<Rightarrow> real" where
  "stepPadding opts s =
     (case step_highlightPadding s of Some p \<Rightarrow> p | None \<Rightarrow> opt_highlightPadding opts)"

definition moveModalToStep :: "Options \<Rightarrow> Engine \<Rightarrow> Step option \<Rightarrow> Outcome" where
  "moveModalToStep opts st step =
     (case step of
        None \<Rightarrow> Settled st
      | Some s \<Rightarrow>
          (case step_measure s of
             NeverResolves \<Rightarrow> Stalled st
           | ResolvesNull \<Rightarrow> Settled st
           | Resolves measurement \<Rightarrow>
               (let padding = stepPadding opts s
                in Settled
                     (animateMove opts st
                        \<lparr>rect_x = rect_x measurement - padding / 2,
                         rect_y = rect_y measurement - padding / 2 + opt_verticalOffset opts,
                         rect_width = rect_width measurement + padding,
                         rect_height = rect_height measurement + padding\<rparr>
                        (step_maskShape s) (step_borderRadius s)))))"

text \<open>
  \<open>setCurrentStep\<close>: between recording the step and moving the modal the source may scroll
  the step into view and wait for the layout to settle. That changes nothing in the state
  of the engine and its promise is taken to resolve.
\<close>

definition setCurrentStep :: "Options \<Rightarrow> Engine \<Rightarrow> Step option \<Rightarrow> bool \<Rightarrow> Outcome" where
  "setCurrentStep opts st step move =
     (let st1 = st\<lparr>currentStep := step\<rparr>
      in if move \<and> step \<noteq> None then moveModalToStep opts st1 step else Settled st1)"

definition withScrollView :: "Engine \<Rightarrow> nat option \<Rightarrow> Engine" where
  "withScrollView st scrollView =
     (case scrollView of Some v \<Rightarrow> st\<lparr>scrollViewRef := Some v\<rparr> | None \<Rightarrow> st)"

text \<open>
  The value of \<open>firstStep\<close> in \<open>start\<close>: nothing (\<open>undefined\<close> or another falsy value), a
  registered step, or a truthy value that is not a step; reading it may also throw.
\<close>

datatype FirstStep = NoFirstStep | FirstStep Step | OtherValue | LookupThrows

text \<open>
  \<open>tourSteps[fromStep]\<close>, where \<open>tourSteps\<close> is \<open>steps[tourKey] || {}\<close>. Both are property reads
  on plain objects, which find own properties first and inherited ones after them. When
  the registry has steps for the tour key, or the key names nothing at all, \<open>tourSteps\<close> is
  a plain object: a step registered under the name is found, visible or not, and
  otherwise a property inherited from \<open>Object.prototype\<close>. When the registry has nothing
  for the tour key and the key names an inherited property, \<open>tourSteps\<close> is that inherited
  value, and the name is read from it.
\<close>

definition lookupFromStep :: "Options \<Rightarrow> StepsState \<Rightarrow> string \<Rightarrow> string \<Rightarrow> FirstStep" where
  "lookupFromStep opts stepsState tourKey fromStep =
     (case stepsState tourKey of
        Some tourSteps \<Rightarrow>
          (case map_of tourSteps fromStep of
             Some s \<Rightarrow> FirstStep s
           | None \<Rightarrow>
               (case objectPrototype opts fromStep of
                  Some props \<Rightarrow> OtherValue
                | None \<Rightarrow> NoFirstStep))
      | None \<Rightarrow>
          (case objectPrototype opts tourKey of
             Some props \<Rightarrow>
               (case props fromStep of
                  Truthy \<Rightarrow> OtherValue
                | Falsy \<Rightarrow> NoFirstStep
                | Throws \<Rightarrow> LookupThrows)
           | None \<Rightarrow>
               (case objectPrototype opts fromStep of
                  Some props \<Rightarrow> OtherValue
                | None \<Rightarrow> NoFirstStep)))"

text \<open>
  \<open>orderedTourSteps[0]\<close>. An inherited value that stands for \<open>tourSteps\<close> has no enumerable
  property, so \<open>Object.values\<close> gives the empty list for it, as it does for \<open>{}\<close>.
\<close>

definition firstOrdered :: "StepsState \<Rightarrow> string \<Rightarrow> FirstStep" where
  "firstOrdered stepsState tourKey =
     (case at_index (orderedTourSteps stepsState tourKey) 0 of
        Some s \<Rightarrow> FirstStep s
      | None \<Rightarrow> NoFirstStep)"

text \<open>
  \<open>fromStep ? tourSteps[fromStep] : orderedTourSteps[0]\<close>: a step name counts as given when
  it is not the empty string.
\<close>

definition firstStepOf ::
  "Options \<Rightarrow> StepsState \<Rightarrow> string \<Rightarrow> string option \<Rightarrow> FirstStep" where
  "firstStepOf opts stepsState tourKey fromStep =
     (case fromStep of
        Some n \<Rightarrow>
          if n \<noteq> [] then lookupFromStep opts stepsState tourKey n
          else firstOrdered stepsState tourKey
      | None \<Rightarrow> firstOrdered stepsState tourKey)"

text \<open>\<open>!firstStep\<close> is false for a step and for any other truthy value.\<close>

fun isFound :: "FirstStep \<Rightarrow> bool" where
  "isFound (FirstStep s) = True"
| "isFound OtherValue = True"
| "isFound NoFirstStep = False"
| "isFound LookupThrows = False"

definition startFound :: "Options \<Rightarrow> Engine \<Rightarrow> string \<Rightarrow> Step \<Rightarrow> Outcome" where
  "startFound opts st tourKey firstStep =
     andThen
       (andThen
          (andThen
             (setCurrentStep opts
                (st\<lparr>activeTour := Some tourKey,
                    emitted := emitted st @ [StartEvent tourKey]\<rparr>)
                (Some firstStep) True)
             (\<lambda>s. moveModalToStep opts s (Some firstStep)))
          (setVisibility True))
       (\<lambda>s. Settled (s\<lparr>startTries := 0\<rparr>))"

text \<open>
  The rest of \<open>start\<close> when \<open>firstStep\<close> is a truthy value that is not a step. The tour is
  made the active one and \<open>start\<close> is emitted as for a step. \<open>setCurrentStep\<close> then hands the
  value to the state setter and reads \<open>step.wrapperRef.current\<close> or calls \<open>step.measure()\<close>;
  the value has neither, so a \<open>TypeError\<close> is thrown and the promise of \<open>start\<close> is rejected.
  What the state \<open>currentStep\<close> holds after that depends on the value (React calls a
  function that is passed to a state setter) and is not modelled: the field keeps what
  it had.
\<close>

definition startOther :: "Engine \<Rightarrow> string \<Rightarrow> Outcome" where
  "startOther st tourKey =
     Threw (st\<lparr>activeTour := Some tourKey,
               emitted := emitted st @ [StartEvent tourKey]\<rparr>)"

text \<open>
  \<open>start\<close>, together with the calls of itself that it defers to the next animation frame.
  A deferred call is made through the same closure, so it reads the same \<open>steps\<close>. The
  first step is read before the retry counter is looked at; when that read throws,
  nothing else happens.
\<close>

function start ::
  "Options \<Rightarrow> Engine \<Rightarrow> string \<Rightarrow> string option \<Rightarrow> nat option \<Rightarrow> Outcome" where
  "start opts st0 tourKey fromStep scrollView =
     (if firstStepOf opts (steps (withScrollView st0 scrollView)) tourKey fromStep = LookupThrows
      then Threw (withScrollView st0 scrollView)
      else if startTries (withScrollView st0 scrollView) > MAX_START_TRIES
      then Settled ((withScrollView st0 scrollView)
                      \<lparr>startTries := 0,
                       warnings := warnings (withScrollView st0 scrollView) @ [FailedToStart tourKey]\<rparr>)
      else (case firstStepOf opts (steps (withScrollView st0 scrollView)) tourKey fromStep of
              NoFirstStep \<Rightarrow>
                start opts
                  ((withScrollView st0 scrollView)
                     \<lparr>startTries := startTries (withScrollView st0 scrollView) + 1,
                      animationFrames := animationFrames (withScrollView st0 scrollView) + 1\<rparr>)
                  tourKey fromStep scrollView
            | FirstStep firstStep \<Rightarrow>
                startFound opts (withScrollView st0 scrollView) tourKey firstStep
            | OtherValue \<Rightarrow> startOther (withScrollView st0 scrollView) tourKey
            | LookupThrows \<Rightarrow> Threw (withScrollView st0 scrollView)))"
  by pat_completeness auto
termination
  by (relation "measure (\<lambda>(opts, st, tourKey, fromStep, scrollView).
                   Suc MAX_START_TRIES - startTries st)")
     (auto simp add: withScrollView_def MAX_START_TRIES_def split: option.splits)

declare start.simps [simp del]

definition stop :: "Engine \<Rightarrow> Outcome" where
  "stop st =
     (let tourKey = activeTour st;
          completed = isLastStep st
      in andThen (setVisibility False st)
           (\<lambda>s. Settled
                  (s\<lparr>activeTour := None, currentStep := None, scrollViewRef := None,
                     emitted := emitted s @
                       (case tourKey of
                          Some k \<Rightarrow> if k \<noteq> [] then [StopEvent k completed] else []
                        | None \<Rightarrow> [])\<rparr>)))"

definition goToNext :: "Options \<Rightarrow> Engine \<Rightarrow> Outcome" where
  "goToNext opts st =
     (case at_index (orderedSteps (steps st) (activeTour st)) (stepIndex st + 1) of
        Some nextStep \<Rightarrow>
          setCurrentStep opts
            (st\<lparr>emitted := emitted st @
                   [StepChangeEvent (activeTour st) nextStep (stepIndex st + 2)]\<rparr>)
            (Some nextStep) True
      | None \<Rightarrow> stop st)"

definition goToPrev :: "Options \<Rightarrow> Engine \<Rightarrow> Outcome" where
  "goToPrev opts st =
     (case at_index (orderedSteps (steps st) (activeTour st)) (stepIndex st - 1) of
        Some prevStep \<Rightarrow>
          setCurrentStep opts
            (st\<lparr>emitted := emitted st @
                   [StepChangeEvent (activeTour st) prevStep (stepIndex st)]\<rparr>)
            (Some prevStep) True
      | None \<Rightarrow> Settled st)"

definition goToNth :: "Options \<Rightarrow> Engine \<Rightarrow> int \<Rightarrow> Outcome" where
  "goToNth opts st n =
     (case at_index (orderedSteps (steps st) (activeTour st)) (n - 1) of
        Some step \<Rightarrow>
          setCurrentStep opts
            (st\<lparr>emitted := emitted st @ [StepChangeEvent (activeTour st) step n]\<rparr>)
            (Some step) True
      | None \<Rightarrow> Settled st)"

section \<open>Concrete inputs\<close>

text \<open>
  The viewport and the target near its top left corner of the quadrant scenario, a target
  whose centre is at half the height of the viewport, a target in the corner itself, and
  options with a margin wider than half that viewport.
\<close>

definition quadrant_viewport :: LayoutRect where
  "quadrant_viewport = \<lparr>rect_x = 0, rect_y = 0, rect_width = 400, rect_height = 800\<rparr>"

definition target_top_left :: LayoutRect where
  "target_top_left = \<lparr>rect_x = 20, rect_y = 20, rect_width = 60, rect_height = 60\<rparr>"

definition target_middle :: LayoutRect where
  "target_middle = \<lparr>rect_x = 20, rect_y = 370, rect_width = 60, rect_height = 60\<rparr>"

definition target_corner :: LayoutRect where
  "target_corner = \<lparr>rect_x = 0, rect_y = 0, rect_width = 60, rect_height = 60\<rparr>"

definition wide_margin_options :: Options where
  "wide_margin_options = default_options\<lparr>opt_margin := 250\<rparr>"

text \<open>
  Steps as \<open>TourStep\<close> registers them: two steps of tour \<open>t\<close> with the same order, one step
  of tour \<open>u\<close>, and one step whose tour key is the empty string.
\<close>

definition mk_step :: "string \<Rightarrow> string \<Rightarrow> real \<Rightarrow> Step" where
  "mk_step tourKey name ord =
     \<lparr>step_name = name, step_order = ord, step_text = name, step_tourKey = tourKey,
      step_visible = True, step_measure = Resolves target_top_left,
      step_maskShape = Some RoundedRectangle, step_borderRadius = None,
      step_highlightPadding = None\<rparr>"

definition step_a :: Step where
  "step_a = mk_step ''t'' ''a'' 1"

definition step_b :: Step where
  "step_b = mk_step ''t'' ''b'' 1"

definition step_u :: Step where
  "step_u = mk_step ''u'' ''c'' 1"

definition step_e :: Step where
  "step_e = mk_step [] ''d'' 1"

definition registered :: Engine where
  "registered =
     registerStep
       (registerStep
          (registerStep (initial_engine default_options quadrant_viewport) step_a)
          step_b)
       step_u"

text \<open>Tour \<open>t\<close> started at its first step, and started from step \<open>b\<close>.\<close>

definition touring :: Engine where
  "touring = state_of (start default_options registered ''t'' None None)"

definition touring_from_b :: Engine where
  "touring_from_b = state_of (start default_options registered ''t'' (Some ''b'') None)"

section \<open>Properties of the mask path\<close>

text \<open>
  C6. For every size and requested radius, the four arcs of the rounded-rectangle
  path use the corner radius \<open>min(borderRadius, sizeX/2, sizeY/2)\<close>, and that radius never
  exceeds half of the smaller side.
\<close>

theorem rounded_rectangle_radius_clamped:
  "arcRadii (generatePath RoundedRectangle borderRadius canvasSize pos (sizeX, sizeY))
     = replicate 4 (min borderRadius (min (sizeX / 2) (sizeY / 2)),
                    min borderRadius (min (sizeX / 2) (sizeY / 2)))
   \<and> min borderRadius (min (sizeX / 2) (sizeY / 2)) \<le> min sizeX sizeY / 2"
  by (simp add: generatePath_def outerPath_def innerPath_def Let_def numeral_eq_Suc min_def)

theorem rounded_rectangle_radius_clamped_witness:
  "arcRadii (generatePath RoundedRectangle 40 (400, 800) (20, 20) (60, 30))
     = [(15, 15), (15, 15), (15, 15), (15, 15)]"
  using rounded_rectangle_radius_clamped [of 40 "(400, 800)" "(20, 20)" 60 30]
  by (simp add: numeral_eq_Suc)

section \<open>Properties of the tooltip placement\<close>

lemma tooltip_vertical:
  "vs_top (fst (placeHorizontal opts vp r (placeVertical opts vp r (emptyStyle, a)))) =
     (if verticalPosition vp r = Bottom
      then Some (rect_y r + rect_height r + opt_margin opts) else None)"
  "vs_bottom (fst (placeHorizontal opts vp r (placeVertical opts vp r (emptyStyle, a)))) =
     (if verticalPosition vp r = Bottom
      then None else Some (rect_height vp - (rect_y r - opt_margin opts)))"
  by (auto simp add: placeHorizontal_def placeVertical_def Let_def emptyStyle_def
      split: VerticalPosition.splits HorizontalPosition.splits)

lemma tooltip_of_animateMove:
  "tooltipStyles (animateMove_inner opts m rect shape br) =
     fst (placeHorizontal opts (layout m) (statusBarShift opts rect)
            (placeVertical opts (layout m) (statusBarShift opts rect)
               (emptyStyle, emptyStyle\<lparr>vs_position := Some ''absolute''\<rparr>)))"
  by (simp add: animateMove_inner_def Let_def)

text \<open>
  C1, as the code has it. The side is \<open>bottom\<close> exactly when the centre of the target is
  farther from the bottom edge of the viewport than from its top edge, the distance to the
  top edge being the centre's \<open>y\<close> itself; for a centre inside the viewport that is the
  upper half. Otherwise, and in particular when both distances are equal, the side is
  \<open>top\<close>. A tooltip on side \<open>bottom\<close> is placed below the target, one on side \<open>top\<close>
  above it.
\<close>

theorem vertical_side_is_away_from_nearer_edge:
  "(verticalPosition vp r = Bottom) =
      (rect_y r + rect_height r / 2 < \<bar>rect_y r + rect_height r / 2 - rect_height vp\<bar>)
   \<and> (verticalPosition vp r = Top) =
      (\<bar>rect_y r + rect_height r / 2 - rect_height vp\<bar> \<le> rect_y r + rect_height r / 2)
   \<and> (0 \<le> center_y r \<and> center_y r \<le> rect_height vp \<longrightarrow>
        (verticalPosition vp r = Bottom) = (center_y r < rect_height vp / 2))
   \<and> (\<bar>center_y r - rect_height vp\<bar> = center_y r \<longrightarrow> verticalPosition vp r = Top)
   \<and> vs_top (tooltipStyles (animateMove_inner opts (m\<lparr>layout := vp\<rparr>) r shape br)) =
        (if verticalPosition vp (statusBarShift opts r) = Bottom
         then Some (rect_y (statusBarShift opts r) + rect_height r + opt_margin opts)
         else None)
   \<and> vs_bottom (tooltipStyles (animateMove_inner opts (m\<lparr>layout := vp\<rparr>) r shape br)) =
        (if verticalPosition vp (statusBarShift opts r) = Bottom
         then None
         else Some (rect_height vp - (rect_y (statusBarShift opts r) - opt_margin opts)))"
proof -
  have h: "rect_height (statusBarShift opts r) = rect_height r"
    by (simp add: statusBarShift_def)
  have "(verticalPosition vp r = Bottom) =
      (rect_y r + rect_height r / 2 < \<bar>rect_y r + rect_height r / 2 - rect_height vp\<bar>)"
    by (simp add: verticalPosition_def relativeToBottom_def relativeToTop_def center_y_def)
  moreover have "(verticalPosition vp r = Top) =
      (\<bar>rect_y r + rect_height r / 2 - rect_height vp\<bar> \<le> rect_y r + rect_height r / 2)"
    by (auto simp add: verticalPosition_def relativeToBottom_def relativeToTop_def center_y_def)
  moreover have "0 \<le> center_y r \<and> center_y r \<le> rect_height vp \<longrightarrow>
        (verticalPosition vp r = Bottom) = (center_y r < rect_height vp / 2)"
    by (auto simp add: verticalPosition_def relativeToBottom_def relativeToTop_def)
  moreover have "\<bar>center_y r - rect_height vp\<bar> = center_y r \<longrightarrow> verticalPosition vp r = Top"
    by (simp add: verticalPosition_def relativeToBottom_def relativeToTop_def)
  ultimately show ?thesis
    by (simp only: tooltip_of_animateMove tooltip_vertical h) simp
qed

theorem vertical_side_is_away_from_nearer_edge_witness:
  "0 \<le> center_y target_top_left \<and> center_y target_top_left \<le> rect_height quadrant_viewport
   \<and> verticalPosition quadrant_viewport target_top_left = Bottom
   \<and> \<bar>center_y target_middle - rect_height quadrant_viewport\<bar> = center_y target_middle
   \<and> verticalPosition quadrant_viewport target_middle = Top"
proof -
  have c: "0 \<le> center_y target_top_left \<and> center_y target_top_left \<le> rect_height quadrant_viewport"
    by (simp add: center_y_def target_top_left_def quadrant_viewport_def)
  have h: "center_y target_top_left < rect_height quadrant_viewport / 2"
    by (simp add: center_y_def target_top_left_def quadrant_viewport_def)
  have e: "\<bar>center_y target_middle - rect_height quadrant_viewport\<bar> = center_y target_middle"
    by (simp add: center_y_def target_middle_def quadrant_viewport_def)
  have "0 \<le> center_y target_top_left \<and> center_y target_top_left \<le> rect_height quadrant_viewport
          \<longrightarrow> (verticalPosition quadrant_viewport target_top_left = Bottom)
                = (center_y target_top_left < rect_height quadrant_viewport / 2)"
    using vertical_side_is_away_from_nearer_edge
            [of quadrant_viewport target_top_left default_options m None None for m]
    by blast
  with c h have b: "verticalPosition quadrant_viewport target_top_left = Bottom" by blast
  have "\<bar>center_y target_middle - rect_height quadrant_viewport\<bar> = center_y target_middle
          \<longrightarrow> verticalPosition quadrant_viewport target_middle = Top"
    using vertical_side_is_away_from_nearer_edge
            [of quadrant_viewport target_middle default_options m None None for m]
    by blast
  with e have "verticalPosition quadrant_viewport target_middle = Top" by blast
  with c b e show ?thesis by blast
qed

text \<open>
  The quadrant scenario refutes C1 as the claim words it: the centre of the target
  near the top left corner is closer to the top edge than to the bottom edge, and the side
  chosen is \<open>bottom\<close>.
\<close>

theorem vertical_side_closer_edge_counterexample:
  "\<not> (verticalPosition quadrant_viewport target_top_left =
        (if \<bar>center_y target_top_left - rect_height quadrant_viewport\<bar> < \<bar>center_y target_top_left\<bar>
         then Bottom else Top))"
  by (simp add: verticalPosition_def relativeToBottom_def relativeToTop_def center_y_def
      quadrant_viewport_def target_top_left_def)

lemma maxWidth_Left:
  assumes "horizontalPosition vp r = Left"
  shows "vs_right (fst (placeHorizontal opts vp r st)) =
           Some (if max (rect_width vp - (rect_x r + rect_width r)) 0 = 0 then opt_margin opts
                 else max (rect_width vp - (rect_x r + rect_width r)) 0)"
    and "vs_maxWidth (fst (placeHorizontal opts vp r st)) =
           Some (rect_width vp
                 - (if max (rect_width vp - (rect_x r + rect_width r)) 0 = 0 then opt_margin opts
                    else max (rect_width vp - (rect_x r + rect_width r)) 0)
                 - opt_margin opts)"
  using assms by (cases st; simp add: placeHorizontal_def Let_def)+

lemma maxWidth_Right:
  assumes "horizontalPosition vp r = Right"
  shows "vs_left (fst (placeHorizontal opts vp r st)) =
           Some (if max (rect_x r) 0 = 0 then opt_margin opts else max (rect_x r) 0)"
    and "vs_maxWidth (fst (placeHorizontal opts vp r st)) =
           Some (rect_width vp
                 - (if max (rect_x r) 0 = 0 then opt_margin opts else max (rect_x r) 0)
                 - opt_margin opts)"
  using assms by (cases st; simp add: placeHorizontal_def Let_def)+

lemma statusBarShift_horizontal [simp]:
  "rect_x (statusBarShift opts r) = rect_x r"
  "rect_width (statusBarShift opts r) = rect_width r"
  by (simp_all add: statusBarShift_def)

text \<open>
  C5, with the bound on the margin that the code needs. For a target that lies
  within the viewport horizontally and a margin smaller than half the width of the
  viewport, the tooltip's \<open>maxWidth\<close> is the width of the viewport minus the offset of the
  chosen anchor (\<open>right\<close> for a left-anchored tooltip, \<open>left\<close> for a right-anchored one)
  minus the margin, and it is strictly positive.
\<close>

theorem maxWidth_positive_within_viewport:
  assumes "0 \<le> rect_x r" and "0 \<le> rect_width r"
    and "rect_x r + rect_width r \<le> rect_width vp"
    and "2 * opt_margin opts < rect_width vp"
  shows "\<exists>anchorOffset.
           (case horizontalPosition vp (statusBarShift opts r) of
              Left \<Rightarrow> vs_right (tooltipStyles (animateMove_inner opts (m\<lparr>layout := vp\<rparr>) r shape br))
            | Right \<Rightarrow> vs_left (tooltipStyles (animateMove_inner opts (m\<lparr>layout := vp\<rparr>) r shape br)))
             = Some anchorOffset
         \<and> vs_maxWidth (tooltipStyles (animateMove_inner opts (m\<lparr>layout := vp\<rparr>) r shape br))
             = Some (rect_width vp - anchorOffset - opt_margin opts)
         \<and> 0 < rect_width vp - anchorOffset - opt_margin opts"
proof (cases "horizontalPosition vp (statusBarShift opts r)")
  case Left
  define off where "off =
    (if max (rect_width vp - (rect_x r + rect_width r)) 0 = 0 then opt_margin opts
     else max (rect_width vp - (rect_x r + rect_width r)) 0)"
  have anchor: "vs_right (tooltipStyles (animateMove_inner opts (m\<lparr>layout := vp\<rparr>) r shape br))
                  = Some off"
    unfolding off_def by (simp add: tooltip_of_animateMove maxWidth_Left [OF Left])
  have width: "vs_maxWidth (tooltipStyles (animateMove_inner opts (m\<lparr>layout := vp\<rparr>) r shape br))
                 = Some (rect_width vp - off - opt_margin opts)"
    unfolding off_def by (simp add: tooltip_of_animateMove maxWidth_Left [OF Left])
  from Left have "rect_x r + rect_width r / 2 > \<bar>rect_x r + rect_width r / 2 - rect_width vp\<bar>"
    by (simp add: horizontalPosition_def relativeToLeft_def relativeToRight_def center_x_def
        split: if_splits)
  with assms have "0 < rect_width vp - off - opt_margin opts"
    unfolding off_def by (simp add: max_def split: if_splits)
  with Left anchor width show ?thesis by auto
next
  case Right
  define off where "off =
    (if max (rect_x r) 0 = 0 then opt_margin opts else max (rect_x r) 0)"
  have anchor: "vs_left (tooltipStyles (animateMove_inner opts (m\<lparr>layout := vp\<rparr>) r shape br))
                  = Some off"
    unfolding off_def by (simp add: tooltip_of_animateMove maxWidth_Right [OF Right])
  have width: "vs_maxWidth (tooltipStyles (animateMove_inner opts (m\<lparr>layout := vp\<rparr>) r shape br))
                 = Some (rect_width vp - off - opt_margin opts)"
    unfolding off_def by (simp add: tooltip_of_animateMove maxWidth_Right [OF Right])
  from Right have "rect_x r + rect_width r / 2 \<le> \<bar>rect_x r + rect_width r / 2 - rect_width vp\<bar>"
    by (simp add: horizontalPosition_def relativeToLeft_def relativeToRight_def center_x_def
        split: if_splits)
  with assms have "0 < rect_width vp - off - opt_margin opts"
    unfolding off_def by (simp add: max_def split: if_splits)
  with Right anchor width show ?thesis by auto
qed

theorem maxWidth_positive_within_viewport_witness:
  "0 \<le> rect_x target_top_left \<and> 0 \<le> rect_width target_top_left
   \<and> rect_x target_top_left + rect_width target_top_left \<le> rect_width quadrant_viewport
   \<and> 2 * opt_margin default_options < rect_width quadrant_viewport
   \<and> vs_maxWidth (tooltipStyles (animateMove_inner default_options
        (initial_modal default_options quadrant_viewport) target_top_left None None)) = Some 367"
proof -
  let ?m = "initial_modal default_options quadrant_viewport"
  have m: "?m\<lparr>layout := quadrant_viewport\<rparr> = ?m"
    by (simp add: initial_modal_def)
  have lay: "layout ?m = quadrant_viewport"
    by (simp add: initial_modal_def)
  have s: "statusBarShift default_options target_top_left = target_top_left"
    by (simp add: statusBarShift_def default_options_def)
  have hp: "horizontalPosition quadrant_viewport target_top_left = Right"
    by (simp add: horizontalPosition_def relativeToLeft_def relativeToRight_def center_x_def
        quadrant_viewport_def target_top_left_def)
  have l: "vs_left (tooltipStyles (animateMove_inner default_options ?m target_top_left None None))
             = Some 20"
    by (simp add: tooltip_of_animateMove s lay maxWidth_Right [OF hp])
       (simp add: target_top_left_def)
  have hyps: "0 \<le> rect_x target_top_left" "0 \<le> rect_width target_top_left"
    "rect_x target_top_left + rect_width target_top_left \<le> rect_width quadrant_viewport"
    "2 * opt_margin default_options < rect_width quadrant_viewport"
    by (simp_all add: target_top_left_def quadrant_viewport_def default_options_def
        DEFAULT_MARGIN_def)
  from maxWidth_positive_within_viewport [OF hyps, of ?m None None]
  obtain a where
    a: "vs_left (tooltipStyles (animateMove_inner default_options ?m target_top_left None None))
          = Some a"
    and w: "vs_maxWidth (tooltipStyles (animateMove_inner default_options ?m target_top_left None None))
          = Some (rect_width quadrant_viewport - a - opt_margin default_options)"
    unfolding m s hp by auto
  from a l have "a = 20" by simp
  with w have "vs_maxWidth (tooltipStyles (animateMove_inner default_options ?m target_top_left None None))
          = Some 367"
    by (simp add: quadrant_viewport_def default_options_def DEFAULT_MARGIN_def)
  with hyps show ?thesis by simp
qed

text \<open>
  With a margin of 250 in the viewport of width 400, the target in the corner lies within
  the viewport and gets the \<open>maxWidth\<close> \<open>400 - 250 - 250\<close>, which is negative: C5 does
  not hold for every margin.
\<close>

theorem maxWidth_wide_margin_counterexample:
  "0 \<le> rect_x target_corner \<and> 0 \<le> rect_y target_corner
   \<and> rect_x target_corner + rect_width target_corner \<le> rect_width quadrant_viewport
   \<and> rect_y target_corner + rect_height target_corner \<le> rect_height quadrant_viewport
   \<and> vs_maxWidth (tooltipStyles (animateMove_inner wide_margin_options
        (initial_modal wide_margin_options quadrant_viewport) target_corner None None))
       = Some (- 100)"
  by (simp add: animateMove_inner_def Let_def statusBarShift_def wide_margin_options_def
      default_options_def placeHorizontal_def placeVertical_def horizontalPosition_def
      verticalPosition_def relativeToLeft_def relativeToRight_def relativeToBottom_def
      relativeToTop_def center_x_def center_y_def initial_modal_def quadrant_viewport_def
      target_corner_def emptyStyle_def)

section \<open>Properties of the step registry\<close>

lemma map_of_insertIndexKey:
  "arrayIndex k = Some n \<Longrightarrow> map_of (insertIndexKey n k v ps) k = Some v"
  by (induction ps) (auto split: option.splits)

lemma map_of_setProperty: "map_of (setProperty ps k v) k = Some v"
  by (auto simp add: setProperty_def map_of_insertIndexKey update_Some_unfold map_add_def
      split: option.splits)

lemma setProperty_twice: "setProperty (setProperty ps k v) k v = setProperty ps k v"
proof -
  have "map_of (setProperty ps k v) k = Some v" by (rule map_of_setProperty)
  then have "setProperty (setProperty ps k v) k v = AList.update k v (setProperty ps k v)"
    by (simp add: setProperty_def [of "setProperty ps k v"])
  also have "\<dots> = setProperty ps k v"
    by (rule update_triv) (rule map_of_setProperty)
  finally show ?thesis .
qed

lemma register_twice:
  "stepsReducer (stepsReducer state (Register step)) (Register step)
     = stepsReducer state (Register step)"
  by (simp add: Let_def tourStepsOf_def setProperty_twice)

lemma set_insertIndexKey: "set (insertIndexKey n k v ps) = insert (k, v) (set ps)"
  by (induction ps) (auto split: option.splits)

lemma value_in_setProperty: "v \<in> snd ` set (setProperty ps k v)"
proof -
  have "map_of (setProperty ps k v) k = Some v" by (rule map_of_setProperty)
  then have "(k, v) \<in> set (setProperty ps k v)" by (rule map_of_SomeD)
  then show ?thesis by force
qed

lemma orderedTourSteps_mset:
  "mset (orderedTourSteps state k)
     = filter_mset step_visible (mset (map snd (tourStepsOf state k)))"
  by (simp add: orderedTourSteps_def Let_def)

lemma orderedTourSteps_sorted: "sorted (map step_order (orderedTourSteps state k))"
  by (simp add: orderedTourSteps_def Let_def)

lemma orderedTourSteps_stable:
  "filter (\<lambda>s. step_order s = c) (orderedTourSteps state k)
     = filter (\<lambda>s. step_order s = c) (filter step_visible (map snd (tourStepsOf state k)))"
  by (simp add: orderedTourSteps_def Let_def sort_key_stable)

text \<open>
  C7, for a tour key that is not the empty string. Registering a step a second time
  with the same data changes neither the registry nor any ordered list. For a non-empty
  tour key the ordered list holds exactly the visible steps registered for that key, each
  as often as it is registered, sorted ascending by \<open>order\<close>, and steps of equal order keep
  the order in which the registry lists them; a visible step that has just been
  registered under a non-empty key is in the list of its tour. The list that \<open>start\<close>
  computes has these properties for every key.
\<close>

theorem register_idempotent_orderedSteps_sorted:
  "stepsReducer (stepsReducer state (Register step)) (Register step)
     = stepsReducer state (Register step)
   \<and> orderedSteps (stepsReducer (stepsReducer state (Register step)) (Register step)) active
     = orderedSteps (stepsReducer state (Register step)) active
   \<and> (k \<noteq> [] \<longrightarrow>
        mset (orderedSteps state (Some k))
          = filter_mset step_visible (mset (map snd (tourStepsOf state k)))
        \<and> sorted (map step_order (orderedSteps state (Some k)))
        \<and> filter (\<lambda>s. step_order s = c) (orderedSteps state (Some k))
          = filter (\<lambda>s. step_order s = c) (filter step_visible (map snd (tourStepsOf state k))))
   \<and> (step_tourKey step \<noteq> [] \<and> step_visible step \<longrightarrow>
        step \<in> set (orderedSteps (stepsReducer state (Register step)) (Some (step_tourKey step))))
   \<and> mset (orderedTourSteps state k)
        = filter_mset step_visible (mset (map snd (tourStepsOf state k)))
   \<and> sorted (map step_order (orderedTourSteps state k))"
proof -
  have "step_tourKey step \<noteq> [] \<and> step_visible step \<longrightarrow>
        step \<in> set (orderedSteps (stepsReducer state (Register step)) (Some (step_tourKey step)))"
    by (simp add: orderedSteps_def orderedTourSteps_def Let_def tourStepsOf_def
        value_in_setProperty)
  moreover have "k \<noteq> [] \<longrightarrow>
        mset (orderedSteps state (Some k))
          = filter_mset step_visible (mset (map snd (tourStepsOf state k)))
        \<and> sorted (map step_order (orderedSteps state (Some k)))
        \<and> filter (\<lambda>s. step_order s = c) (orderedSteps state (Some k))
          = filter (\<lambda>s. step_order s = c) (filter step_visible (map snd (tourStepsOf state k)))"
    using orderedTourSteps_mset [of state k] orderedTourSteps_sorted [of state k]
      orderedTourSteps_stable [of c state k]
    by (simp add: orderedSteps_def)
  moreover note orderedTourSteps_mset [of state k] orderedTourSteps_sorted [of state k]
  moreover have "stepsReducer (stepsReducer state (Register step)) (Register step)
     = stepsReducer state (Register step)"
    by (rule register_twice)
  ultimately show ?thesis by (simp only: simp_thms)
qed

theorem register_idempotent_orderedSteps_sorted_witness:
  "''t'' \<noteq> [] \<and> step_tourKey step_b \<noteq> [] \<and> step_visible step_b
   \<and> orderedSteps (stepsReducer (stepsReducer (steps registered) (Register step_b)) (Register step_b))
        (Some ''t'')
       = orderedSteps (stepsReducer (steps registered) (Register step_b)) (Some ''t'')
   \<and> sorted (map step_order (orderedSteps (steps registered) (Some ''t'')))
   \<and> step_b \<in> set (orderedSteps (stepsReducer (steps registered) (Register step_b)) (Some ''t''))"
proof -
  have k: "step_tourKey step_b = ''t''" "step_visible step_b"
    by (simp_all add: step_b_def mk_step_def)
  note T = register_idempotent_orderedSteps_sorted [of "steps registered" step_b "Some ''t''" "''t''" 1]
  from T have "orderedSteps (stepsReducer (stepsReducer (steps registered) (Register step_b)) (Register step_b))
        (Some ''t'')
       = orderedSteps (stepsReducer (steps registered) (Register step_b)) (Some ''t'')"
    by blast
  moreover from T have "''t'' \<noteq> [] \<longrightarrow> sorted (map step_order (orderedSteps (steps registered) (Some ''t'')))"
    by blast
  moreover from T have "step_tourKey step_b \<noteq> [] \<and> step_visible step_b \<longrightarrow>
        step_b \<in> set (orderedSteps (stepsReducer (steps registered) (Register step_b)) (Some (step_tourKey step_b)))"
    by blast
  ultimately show ?thesis using k by simp
qed

text \<open>
  A visible step registered under the empty tour key is a step of that tour, but the
  ordered list of the active tour \<open>""\<close> is empty: C7 fails for the empty key.
\<close>

theorem orderedSteps_empty_key_counterexample:
  "step_visible step_e
   \<and> map snd (tourStepsOf (stepsReducer Map.empty (Register step_e)) []) = [step_e]
   \<and> orderedSteps (stepsReducer Map.empty (Register step_e)) (Some []) = []"
  by (simp add: orderedSteps_def tourStepsOf_def Let_def setProperty_def arrayIndex_def
      digitValue_def step_e_def mk_step_def)

section \<open>Properties of the event emitter\<close>

lemma forEach_callback_called:
  "calledWith (forEach_callback run event data callbacks) = map (\<lambda>c. (c, data)) callbacks"
  by (induction callbacks) (auto split: option.splits)

lemma forEach_callback_errors:
  "loggedErrors (forEach_callback run event data callbacks)
     = map (\<lambda>c. the (run c data)) (filter (\<lambda>c. run c data \<noteq> None) callbacks)"
  by (induction callbacks) (auto split: option.splits)

text \<open>
  C8. Whatever the callbacks do, an emission calls every callback subscribed to the
  event, once each and in subscription order, with the data of the event; every error
  thrown by a callback is logged, and nothing else is.
\<close>

theorem emit_reaches_every_listener:
  assumes "ls event = Some callbacks"
  shows "calledWith (emit run ls event data) = map (\<lambda>c. (c, data)) callbacks
     \<and> (\<forall>c \<in> set callbacks. Called c data \<in> set (emit run ls event data))
     \<and> loggedErrors (emit run ls event data)
         = map (\<lambda>c. the (run c data)) (filter (\<lambda>c. run c data \<noteq> None) callbacks)
     \<and> (\<forall>c \<in> set callbacks. \<forall>err. run c data = Some err
           \<longrightarrow> ConsoleError event err \<in> set (emit run ls event data))"
proof -
  have called: "Called c data \<in> set (forEach_callback run event data cs)"
    if "c \<in> set cs" for c cs
    using that by (induction cs) (auto split: option.splits)
  have logged: "ConsoleError event err \<in> set (forEach_callback run event data cs)"
    if "c \<in> set cs" "run c data = Some err" for c cs err
    using that by (induction cs) (auto split: option.splits)
  from assms show ?thesis
    by (simp add: emit_def forEach_callback_called forEach_callback_errors called logged)
qed

theorem emit_reaches_every_listener_witness:
  "emitter_on (emitter_on (emitter_on Map.empty EvStop 1) EvStop 2) EvStop 3 EvStop = Some [1, 2, 3]
   \<and> calledWith (emit (\<lambda>c d. if c = 2 then Some ''boom'' else None)
        (emitter_on (emitter_on (emitter_on Map.empty EvStop 1) EvStop 2) EvStop 3)
        EvStop (StopEvent ''t'' True))
       = [(1, StopEvent ''t'' True), (2, StopEvent ''t'' True), (3, StopEvent ''t'' True)]
   \<and> loggedErrors (emit (\<lambda>c d. if c = 2 then Some ''boom'' else None)
        (emitter_on (emitter_on (emitter_on Map.empty EvStop 1) EvStop 2) EvStop 3)
        EvStop (StopEvent ''t'' True)) = [''boom'']"
proof -
  have ls: "emitter_on (emitter_on (emitter_on Map.empty EvStop 1) EvStop 2) EvStop 3 EvStop
              = Some [1, 2, 3]"
    by (simp add: emitter_on_def Let_def)
  from emit_reaches_every_listener
         [of "emitter_on (emitter_on (emitter_on Map.empty EvStop 1) EvStop 2) EvStop 3"
             EvStop "[1, 2, 3]" "\<lambda>c d. if c = 2 then Some ''boom'' else None"
             "StopEvent ''t'' True"] ls
  show ?thesis by simp
qed

section \<open>Properties of the tour engine\<close>

lemma withScrollView_fields [simp]:
  "steps (withScrollView st sv) = steps st"
  "activeTour (withScrollView st sv) = activeTour st"
  "currentStep (withScrollView st sv) = currentStep st"
  "visible (withScrollView st sv) = visible st"
  "startTries (withScrollView st sv) = startTries st"
  "emitted (withScrollView st sv) = emitted st"
  "warnings (withScrollView st sv) = warnings st"
  "animationFrames (withScrollView st sv) = animationFrames st"
  "moves (withScrollView st sv) = moves st"
  "modal (withScrollView st sv) = modal st"
  by (simp_all add: withScrollView_def split: option.splits)

text \<open>
  When no first step can be resolved, \<open>start\<close> defers itself until the counter has passed
  \<open>MAX_START_TRIES\<close> and then gives up.
\<close>

lemma start_gives_up:
  assumes "firstStepOf opts (steps st) tourKey fromStep = NoFirstStep"
  shows "start opts st tourKey fromStep scrollView =
           Settled ((withScrollView st scrollView)
                      \<lparr>startTries := 0,
                       warnings := warnings st @ [FailedToStart tourKey],
                       animationFrames :=
                         animationFrames st + (Suc MAX_START_TRIES - startTries st)\<rparr>)"
  using assms
proof (induction "Suc MAX_START_TRIES - startTries st" arbitrary: st)
  case 0
  then have "startTries st > MAX_START_TRIES" by simp
  with "0.prems" show ?case
    by (subst start.simps) simp
next
  case (Suc n)
  let ?st1 = "(withScrollView st scrollView)
                 \<lparr>startTries := startTries (withScrollView st scrollView) + 1,
                  animationFrames := animationFrames (withScrollView st scrollView) + 1\<rparr>"
  from Suc.hyps(2) have le: "\<not> startTries st > MAX_START_TRIES" by simp
  have n: "n = Suc MAX_START_TRIES - startTries ?st1" using Suc.hyps(2) by simp
  have none: "firstStepOf opts (steps ?st1) tourKey fromStep = NoFirstStep"
    using Suc.prems by simp
  have "start opts st tourKey fromStep scrollView = start opts ?st1 tourKey fromStep scrollView"
    using le Suc.prems by (subst start.simps) simp
  also have "\<dots> = Settled ((withScrollView ?st1 scrollView)
                      \<lparr>startTries := 0,
                       warnings := warnings ?st1 @ [FailedToStart tourKey],
                       animationFrames :=
                         animationFrames ?st1 + (Suc MAX_START_TRIES - startTries ?st1)\<rparr>)"
    by (rule Suc.hyps(1) [OF n none])
  also have "\<dots> = Settled ((withScrollView st scrollView)
                      \<lparr>startTries := 0,
                       warnings := warnings st @ [FailedToStart tourKey],
                       animationFrames :=
                         animationFrames st + (Suc MAX_START_TRIES - startTries st)\<rparr>)"
    using le by (simp add: withScrollView_def split: option.splits)
  finally show ?case .
qed

lemma firstStepOf_no_steps:
  assumes "filter step_visible (map snd (tourStepsOf stepsState tourKey)) = []"
    and "case fromStep of
           None \<Rightarrow> True
         | Some n \<Rightarrow> n = [] \<or> lookupFromStep opts stepsState tourKey n = NoFirstStep"
  shows "firstStepOf opts stepsState tourKey fromStep = NoFirstStep"
  using assms
  by (auto simp add: firstStepOf_def firstOrdered_def orderedTourSteps_def Let_def at_index_def
      split: option.splits)

text \<open>
  C3. Let a tour have no visible step registered, and let \<open>start\<close> be called for it
  without a step name, or with a step name for which \<open>tourSteps[fromStep]\<close> is \<open>undefined\<close>
  or another falsy value, so that no first step is found. Then the call and its deferred
  retries come to an end: each of them that finds the counter at most 120 adds one to the
  counter and asks for one animation frame, and the one that finds the counter above 120
  logs the warning and resets the counter. From a counter of 0 these are the first call
  and 120 retries, followed by the retry that gives up, 121 animation frames in all. The
  active tour, the current step and the visibility are as they were before (none when the
  engine was idle), and no event has been emitted.
\<close>

theorem start_without_steps_gives_up:
  assumes "filter step_visible (map snd (tourStepsOf (steps st) tourKey)) = []"
    and "case fromStep of
           None \<Rightarrow> True
         | Some n \<Rightarrow> n = [] \<or> lookupFromStep opts (steps st) tourKey n = NoFirstStep"
  shows "\<exists>st'. start opts st tourKey fromStep scrollView = Settled st'
     \<and> activeTour st' = activeTour st
     \<and> currentStep st' = currentStep st
     \<and> visible st' = visible st
     \<and> emitted st' = emitted st
     \<and> warnings st' = warnings st @ [FailedToStart tourKey]
     \<and> startTries st' = 0
     \<and> animationFrames st' = animationFrames st + (Suc MAX_START_TRIES - startTries st)
     \<and> (startTries st = 0 \<longrightarrow> animationFrames st' = animationFrames st + 121)"
proof -
  have "firstStepOf opts (steps st) tourKey fromStep = NoFirstStep"
    using assms by (rule firstStepOf_no_steps)
  then show ?thesis
    by (simp add: start_gives_up MAX_START_TRIES_def)
qed

lemma registered_steps:
  "steps registered =
     [''t'' \<mapsto> [(''a'', step_a), (''b'', step_b)], ''u'' \<mapsto> [(''c'', step_u)]]"
  by (simp add: registered_def registerStep_def initial_engine_def Let_def tourStepsOf_def
      setProperty_def arrayIndex_def digitValue_def step_a_def step_b_def step_u_def mk_step_def)

lemma registered_idle:
  "activeTour registered = None" "currentStep registered = None" "\<not> visible registered"
  "startTries registered = 0" "emitted registered = []" "warnings registered = []"
  "animationFrames registered = 0"
  by (simp_all add: registered_def registerStep_def initial_engine_def)

lemma ordered_t: "orderedTourSteps (steps registered) ''t'' = [step_a, step_b]"
  by (simp add: orderedTourSteps_def tourStepsOf_def registered_steps step_a_def step_b_def
      mk_step_def)

lemma touring_fields:
  "steps touring = steps registered"
  "activeTour touring = Some ''t''"
  "currentStep touring = Some step_a"
  "visible touring"
  "emitted touring = [StartEvent ''t'']"
  "startTries touring = 0"
  by (simp_all add: touring_def start.simps withScrollView_def MAX_START_TRIES_def
      registered_idle firstStepOf_def firstOrdered_def ordered_t at_index_def startFound_def
      setCurrentStep_def moveModalToStep_def setVisibility_def animateMove_def Let_def
      step_a_def mk_step_def)

lemma touring_from_b_fields:
  "steps touring_from_b = steps registered"
  "activeTour touring_from_b = Some ''t''"
  "currentStep touring_from_b = Some step_b"
  "visible touring_from_b"
  "emitted touring_from_b = [StartEvent ''t'']"
  by (simp_all add: touring_from_b_def start.simps withScrollView_def MAX_START_TRIES_def
      registered_idle firstStepOf_def lookupFromStep_def registered_steps startFound_def
      setCurrentStep_def moveModalToStep_def setVisibility_def animateMove_def Let_def
      step_b_def mk_step_def)

lemma nowhere_missing:
  "lookupFromStep default_options (steps registered) ''nowhere'' ''missing'' = NoFirstStep"
  by (simp add: lookupFromStep_def registered_steps default_options_def
      ecmascript_objectPrototype_def objectPrototypeNames_def)

theorem start_without_steps_gives_up_witness:
  "filter step_visible (map snd (tourStepsOf (steps registered) ''nowhere'')) = []
   \<and> lookupFromStep default_options (steps registered) ''nowhere'' ''missing'' = NoFirstStep
   \<and> activeTour registered = None \<and> startTries registered = 0
   \<and> (\<exists>st'. start default_options registered ''nowhere'' None None = Settled st'
         \<and> activeTour st' = None \<and> emitted st' = []
         \<and> warnings st' = [FailedToStart ''nowhere''] \<and> animationFrames st' = 121)
   \<and> (\<exists>st'. start default_options registered ''nowhere'' (Some ''missing'') None = Settled st'
         \<and> activeTour st' = None \<and> emitted st' = []
         \<and> warnings st' = [FailedToStart ''nowhere''] \<and> animationFrames st' = 121)"
proof -
  have none: "filter step_visible (map snd (tourStepsOf (steps registered) ''nowhere'')) = []"
    by (simp add: registered_steps tourStepsOf_def)
  have absent: "case None of
                  None \<Rightarrow> True
                | Some n \<Rightarrow> n = [] \<or> lookupFromStep default_options (steps registered)
                                         ''nowhere'' n = NoFirstStep"
    by simp
  have missing: "case Some ''missing'' of
                   None \<Rightarrow> True
                 | Some n \<Rightarrow> n = [] \<or> lookupFromStep default_options (steps registered)
                                          ''nowhere'' n = NoFirstStep"
    by (simp add: nowhere_missing)
  from start_without_steps_gives_up [OF none absent, of None]
    start_without_steps_gives_up [OF none missing, of None] none nowhere_missing
  show ?thesis by (auto simp add: registered_idle)
qed

lemma startFound_emitted:
  "emitted (state_of (startFound opts st k fs)) = emitted st @ [StartEvent k]"
  by (simp add: startFound_def setCurrentStep_def moveModalToStep_def setVisibility_def
      animateMove_def Let_def split: Measurement.splits option.splits)

lemma startFound_activeTour:
  "activeTour (state_of (startFound opts st k fs)) = Some k"
  by (simp add: startFound_def setCurrentStep_def moveModalToStep_def setVisibility_def
      animateMove_def Let_def split: Measurement.splits option.splits)

lemma startOther_fields:
  "emitted (state_of (startOther st k)) = emitted st @ [StartEvent k]"
  "activeTour (state_of (startOther st k)) = Some k"
  by (simp_all add: startOther_def)

lemma start_emitted:
  "emitted (state_of (start opts st k f sv)) =
     emitted st @ (if startTries st \<le> MAX_START_TRIES \<and> isFound (firstStepOf opts (steps st) k f)
                   then [StartEvent k] else [])"
proof (cases "firstStepOf opts (steps st) k f")
  case NoFirstStep
  then show ?thesis by (simp add: start_gives_up)
next
  case (FirstStep fs)
  then show ?thesis
    by (subst start.simps) (simp add: startFound_emitted)
next
  case OtherValue
  then show ?thesis
    by (subst start.simps) (simp add: startOther_fields)
next
  case LookupThrows
  then show ?thesis
    by (subst start.simps) simp
qed

lemma start_activeTour:
  "activeTour (state_of (start opts st k f sv)) =
     (if startTries st \<le> MAX_START_TRIES \<and> isFound (firstStepOf opts (steps st) k f)
      then Some k else activeTour st)"
proof (cases "firstStepOf opts (steps st) k f")
  case NoFirstStep
  then show ?thesis by (simp add: start_gives_up)
next
  case (FirstStep fs)
  then show ?thesis
    by (subst start.simps) (simp add: startFound_activeTour)
next
  case OtherValue
  then show ?thesis
    by (subst start.simps) (simp add: startOther_fields)
next
  case LookupThrows
  then show ?thesis
    by (subst start.simps) simp
qed

text \<open>
  C2, as the code has it. While a tour is active, \<open>start\<close> with another tour key never
  stops the active tour: no \<open>stop\<close> event is emitted. It is a no-op for the active tour
  only when no first step of the other tour is found (or the retry counter has passed
  120). When \<open>firstStep\<close> is found, be it a step or any other truthy value, the engine makes
  the other tour the active one and emits \<open>start\<close> for it.
\<close>

theorem start_other_tour_swaps_without_stop:
  assumes "activeTour st = Some k" and "k' \<noteq> k"
  shows "emitted (state_of (start opts st k' fromStep scrollView)) =
           emitted st @
             (if startTries st \<le> MAX_START_TRIES
                   \<and> isFound (firstStepOf opts (steps st) k' fromStep)
              then [StartEvent k'] else [])
     \<and> (startTries st \<le> MAX_START_TRIES \<and> isFound (firstStepOf opts (steps st) k' fromStep)
          \<longrightarrow> activeTour (state_of (start opts st k' fromStep scrollView)) = Some k'
              \<and> activeTour (state_of (start opts st k' fromStep scrollView)) \<noteq> activeTour st)
     \<and> (\<not> (startTries st \<le> MAX_START_TRIES
              \<and> isFound (firstStepOf opts (steps st) k' fromStep))
          \<longrightarrow> activeTour (state_of (start opts st k' fromStep scrollView)) = Some k)"
  using assms by (simp add: start_emitted start_activeTour)

lemma first_of_registered:
  "firstStepOf default_options (steps registered) ''u'' None = FirstStep step_u"
  "firstStepOf default_options (steps registered) ''v'' None = NoFirstStep"
  by (simp_all add: registered_steps firstStepOf_def firstOrdered_def orderedTourSteps_def
      tourStepsOf_def at_index_def step_u_def mk_step_def)

lemma inherited_of_registered:
  "firstStepOf default_options (steps registered) ''u'' (Some ''toString'') = OtherValue"
  "firstStepOf default_options (steps registered) ''v'' (Some ''toString'') = OtherValue"
  "firstStepOf default_options (steps registered) ''toString'' (Some ''length'') = NoFirstStep"
  "firstStepOf default_options (steps registered) ''toString'' (Some ''name'') = OtherValue"
  "firstStepOf default_options (steps registered) ''toString'' (Some ''caller'') = LookupThrows"
  by (simp_all add: registered_steps firstStepOf_def lookupFromStep_def default_options_def
      ecmascript_objectPrototype_def objectPrototypeNames_def functionPrototypeNames_def)

theorem start_other_tour_swaps_without_stop_witness:
  "activeTour touring = Some ''t'' \<and> ''u'' \<noteq> ''t''
   \<and> startTries touring \<le> MAX_START_TRIES
   \<and> isFound (firstStepOf default_options (steps touring) ''u'' None)
   \<and> emitted (state_of (start default_options touring ''u'' None None))
       = [StartEvent ''t'', StartEvent ''u'']
   \<and> activeTour (state_of (start default_options touring ''u'' None None)) = Some ''u''
   \<and> isFound (firstStepOf default_options (steps touring) ''v'' (Some ''toString''))
   \<and> emitted (state_of (start default_options touring ''v'' (Some ''toString'') None))
       = [StartEvent ''t'', StartEvent ''v'']
   \<and> activeTour (state_of (start default_options touring ''v'' (Some ''toString'') None))
       = Some ''v''
   \<and> \<not> (startTries touring \<le> MAX_START_TRIES
          \<and> isFound (firstStepOf default_options (steps touring) ''v'' None))
   \<and> activeTour (state_of (start default_options touring ''v'' None None)) = Some ''t''"
proof -
  have a: "activeTour touring = Some ''t''" by (simp add: touring_fields)
  have u: "''u'' \<noteq> ''t''" and v: "''v'' \<noteq> ''t''" by simp_all
  from start_other_tour_swaps_without_stop [OF a u, of default_options None None]
    start_other_tour_swaps_without_stop [OF a v, of default_options "Some ''toString''" None]
    start_other_tour_swaps_without_stop [OF a v, of default_options None None]
  show ?thesis
    by (simp add: first_of_registered inherited_of_registered touring_fields
        MAX_START_TRIES_def)
qed

text \<open>
  Tour \<open>t\<close> is active and tour \<open>u\<close> has a step: \<open>start\<close> for \<open>u\<close> changes the active tour
  and emits an event, so it is not a no-op as C2 has it.
\<close>

theorem start_other_tour_noop_counterexample:
  "activeTour touring = Some ''t''
   \<and> activeTour (state_of (start default_options touring ''u'' None None)) = Some ''u''
   \<and> emitted (state_of (start default_options touring ''u'' None None))
       = emitted touring @ [StartEvent ''u'']"
  by (simp add: start_activeTour start_emitted first_of_registered touring_fields)


lemma findIndex_first:
  "i < length xs \<Longrightarrow> p (xs ! i) \<Longrightarrow> \<forall>j<i. \<not> p (xs ! j) \<Longrightarrow> findIndex p xs = int i"
proof (induction xs arbitrary: i)
  case Nil
  then show ?case by simp
next
  case (Cons x xs)
  show ?case
  proof (cases i)
    case 0
    with Cons.prems show ?thesis by simp
  next
    case (Suc k)
    with Cons.prems have "\<not> p x" by auto
    moreover have "findIndex p xs = int k"
      using Cons.prems Suc by (intro Cons.IH) auto
    ultimately show ?thesis using Suc by (simp add: Let_def)
  qed
qed


lemma at_index_length [simp]: "at_index xs (int (length xs)) = None"
  by (simp add: at_index_def)

lemma ordered_u: "orderedTourSteps (steps registered) ''u'' = [step_u]"
  by (simp add: orderedTourSteps_def tourStepsOf_def registered_steps step_u_def mk_step_def)

lemma ordered_registered:
  "orderedSteps (steps registered) (Some ''t'') = [step_a, step_b]"
  "orderedSteps (steps registered) (Some ''u'') = [step_u]"
  by (simp_all add: orderedSteps_def ordered_t ordered_u)


lemma step_a_neq_b: "step_order step_a = step_order step_b" "step_a \<noteq> step_b"
  by (simp_all add: step_a_def step_b_def mk_step_def)



text \<open>
  C9. When the measurement of a step resolves with a rectangle, the rectangle handed
  to \<open>animateMove\<close>, from which the mask and the tooltip are placed, is the measured one
  with its width and height each increased by the padding, its \<open>x\<close> and \<open>y\<close> each decreased
  by half the padding, and its \<open>y\<close> moved by the vertical offset; so each of its four edges
  lies half the padding outside the measured edge. The padding is the step's own
  \<open>highlightPadding\<close> when it has one and the provider's otherwise.
\<close>

theorem moveModalToStep_inflates_by_half_padding:
  assumes "step_measure s = Resolves m"
  shows "\<exists>rect.
       moveModalToStep opts st (Some s)
         = Settled (animateMove opts st rect (step_maskShape s) (step_borderRadius s))
     \<and> moves (state_of (moveModalToStep opts st (Some s)))
         = moves st @ [(rect, step_maskShape s, step_borderRadius s)]
     \<and> modal (state_of (moveModalToStep opts st (Some s)))
         = animateMove_inner opts (modal st) rect (step_maskShape s) (step_borderRadius s)
     \<and> rect_width rect = rect_width m + stepPadding opts s
     \<and> rect_height rect = rect_height m + stepPadding opts s
     \<and> rect_x rect = rect_x m - stepPadding opts s / 2
     \<and> rect_y rect = rect_y m - stepPadding opts s / 2 + opt_verticalOffset opts
     \<and> rect_x rect + rect_width rect = rect_x m + rect_width m + stepPadding opts s / 2
     \<and> rect_y rect + rect_height rect
         = rect_y m + rect_height m + stepPadding opts s / 2 + opt_verticalOffset opts
     \<and> stepPadding opts s
         = (case step_highlightPadding s of Some p \<Rightarrow> p | None \<Rightarrow> opt_highlightPadding opts)"
  using assms
  by (simp add: moveModalToStep_def animateMove_def Let_def stepPadding_def field_simps)

theorem moveModalToStep_inflates_by_half_padding_witness:
  "step_measure step_a = Resolves target_top_left
   \<and> moves (state_of (moveModalToStep default_options registered (Some step_a)))
       = [(\<lparr>rect_x = 18, rect_y = 18, rect_width = 64, rect_height = 64\<rparr>,
           Some RoundedRectangle, None)]"
proof -
  have m: "step_measure step_a = Resolves target_top_left"
    by (simp add: step_a_def mk_step_def)
  have p: "stepPadding default_options step_a = 4"
    by (simp add: stepPadding_def step_a_def mk_step_def default_options_def
        DEFAULT_HIGHLIGHT_PADDING_def)
  have s: "step_maskShape step_a = Some RoundedRectangle" "step_borderRadius step_a = None"
    by (simp_all add: step_a_def mk_step_def)
  have e: "moves registered = []"
    by (simp add: registered_def registerStep_def initial_engine_def)
  from moveModalToStep_inflates_by_half_padding [OF m, of default_options registered]
  obtain rect where
    mv: "moves (state_of (moveModalToStep default_options registered (Some step_a)))
           = moves registered @ [(rect, step_maskShape step_a, step_borderRadius step_a)]"
    and w: "rect_width rect = rect_width target_top_left + stepPadding default_options step_a"
    and h: "rect_height rect = rect_height target_top_left + stepPadding default_options step_a"
    and x: "rect_x rect = rect_x target_top_left - stepPadding default_options step_a / 2"
    and y: "rect_y rect = rect_y target_top_left - stepPadding default_options step_a / 2
              + opt_verticalOffset default_options"
    by blast
  have v: "opt_verticalOffset default_options = 0"
    by (simp add: default_options_def)
  have "rect = \<lparr>rect_x = 18, rect_y = 18, rect_width = 64, rect_height = 64\<rparr>"
    by (rule LayoutRect.equality) (simp_all add: w h x y p v target_top_left_def)
  with mv m show ?thesis by (simp add: e s)
qed

lemma at_index_nat:
  "at_index xs (int i) = (if i < length xs then Some (xs ! i) else None)"
  by (simp add: at_index_def)

text \<open>
  C10. The index of the current step is the position of the first step of the
  ordered list that has the current step's \<open>order\<close>; nothing else of the current step is
  looked at. So when the step at position \<open>i\<close> is the first one with the order of the
  current step, the step number, \<open>isFirstStep\<close>, \<open>isLastStep\<close>, \<open>goToNext\<close> and \<open>goToPrev\<close>
  are those of position \<open>i\<close>, whichever step of that order is the current one.
\<close>

theorem stepIndex_is_first_with_same_order:
  assumes "currentStep st = Some cs"
    and "i < length (orderedSteps (steps st) (activeTour st))"
    and "step_order (orderedSteps (steps st) (activeTour st) ! i) = step_order cs"
    and "\<forall>j<i. step_order (orderedSteps (steps st) (activeTour st) ! j) \<noteq> step_order cs"
  shows "stepIndex st = int i
     \<and> stepIndex (st\<lparr>currentStep := Some (orderedSteps (steps st) (activeTour st) ! i)\<rparr>)
         = stepIndex st
     \<and> currentStepNumber st = int i + 1
     \<and> isFirstStep st = (i = 0)
     \<and> isLastStep st = (i + 1 = length (orderedSteps (steps st) (activeTour st)))
     \<and> goToNext opts st =
         (if i + 1 < length (orderedSteps (steps st) (activeTour st))
          then setCurrentStep opts
                 (st\<lparr>emitted := emitted st @
                        [StepChangeEvent (activeTour st)
                           (orderedSteps (steps st) (activeTour st) ! (i + 1)) (int i + 2)]\<rparr>)
                 (Some (orderedSteps (steps st) (activeTour st) ! (i + 1))) True
          else stop st)
     \<and> goToPrev opts st =
         (if 0 < i
          then setCurrentStep opts
                 (st\<lparr>emitted := emitted st @
                        [StepChangeEvent (activeTour st)
                           (orderedSteps (steps st) (activeTour st) ! (i - 1)) (int i)]\<rparr>)
                 (Some (orderedSteps (steps st) (activeTour st) ! (i - 1))) True
          else Settled st)"
proof -
  let ?os = "orderedSteps (steps st) (activeTour st)"
  have idx: "stepIndex st = int i"
    using assms by (simp add: stepIndex_def findIndex_first)
  have same: "stepIndex (st\<lparr>currentStep := Some (?os ! i)\<rparr>) = stepIndex st"
    using assms by (simp add: stepIndex_def)
  have num: "currentStepNumber st = int i + 1"
    by (simp add: currentStepNumber_def idx)
  have first: "isFirstStep st = (i = 0)"
    by (simp add: isFirstStep_def idx)
  have last: "isLastStep st = (i + 1 = length ?os)"
    using assms(2) by (auto simp add: isLastStep_def idx)
  have "int i + 1 = int (i + 1)" by simp
  then have nxt: "at_index ?os (stepIndex st + 1)
                    = (if i + 1 < length ?os then Some (?os ! (i + 1)) else None)"
    unfolding idx by (simp only: at_index_nat)
  have prv: "at_index ?os (stepIndex st - 1) = (if 0 < i then Some (?os ! (i - 1)) else None)"
  proof (cases i)
    case 0
    then show ?thesis by (simp add: idx at_index_def)
  next
    case (Suc k)
    then have "int i - 1 = int k" by simp
    then have "at_index ?os (stepIndex st - 1) = at_index ?os (int k)" by (simp add: idx)
    with Suc assms(2) show ?thesis by (simp add: at_index_nat)
  qed
  have gn: "goToNext opts st =
         (if i + 1 < length ?os
          then setCurrentStep opts
                 (st\<lparr>emitted := emitted st @
                        [StepChangeEvent (activeTour st) (?os ! (i + 1)) (int i + 2)]\<rparr>)
                 (Some (?os ! (i + 1))) True
          else stop st)"
    by (simp add: goToNext_def nxt) (simp add: idx)
  have gp: "goToPrev opts st =
         (if 0 < i
          then setCurrentStep opts
                 (st\<lparr>emitted := emitted st @
                        [StepChangeEvent (activeTour st) (?os ! (i - 1)) (int i)]\<rparr>)
                 (Some (?os ! (i - 1))) True
          else Settled st)"
    by (simp add: goToPrev_def prv) (simp add: idx)
  from idx same num first last gn gp show ?thesis by (simp only: simp_thms)
qed

theorem stepIndex_is_first_with_same_order_witness:
  "currentStep touring_from_b = Some step_b \<and> step_a \<noteq> step_b
   \<and> orderedSteps (steps touring_from_b) (activeTour touring_from_b) = [step_a, step_b]
   \<and> stepIndex touring_from_b = 0
   \<and> currentStepNumber touring_from_b = 1
   \<and> isFirstStep touring_from_b
   \<and> \<not> isLastStep touring_from_b"
proof -
  have os: "orderedSteps (steps touring_from_b) (activeTour touring_from_b) = [step_a, step_b]"
    by (simp add: touring_from_b_fields ordered_registered)
  have 1: "currentStep touring_from_b = Some step_b" by (simp add: touring_from_b_fields)
  have 2: "0 < length (orderedSteps (steps touring_from_b) (activeTour touring_from_b))"
    by (simp add: os)
  have 3: "step_order (orderedSteps (steps touring_from_b) (activeTour touring_from_b) ! 0)
             = step_order step_b"
    by (simp add: os step_a_neq_b)
  have 4: "\<forall>j<0. step_order (orderedSteps (steps touring_from_b) (activeTour touring_from_b) ! j)
             \<noteq> step_order step_b"
    by simp
  from stepIndex_is_first_with_same_order [OF 1 2 3 4, of default_options]
  have "stepIndex touring_from_b = 0" "currentStepNumber touring_from_b = 1"
    "isFirstStep touring_from_b" "\<not> isLastStep touring_from_b"
    by (simp_all add: os)
  with 1 os step_a_neq_b show ?thesis by simp
qed

end
